theory Spec2Isabelle
  imports Complex_Main
begin

section \<open>The slider hook \<open>useSlider\<close>\<close>

text \<open>
  The hook keeps three React state cells (\<open>currentTranslate\<close>, \<open>prevTranslate\<close>,
  \<open>maxTranslate\<close>), five refs (\<open>trackRef\<close>, \<open>isMouseDownRef\<close>, \<open>diffRef\<close>,
  \<open>startPosRef\<close>, \<open>isInputClickRef\<close>) and receives \<open>isDragging\<close>, \<open>setIsDragging\<close>
  and \<open>gap\<close> from its caller. Every handler is rebuilt by \<open>useCallback\<close> whenever a state
  cell it reads changes, so a handler always reads the state of the last committed render
  and its \<open>set...\<close> calls take effect together at the next render. A handler is therefore a
  function from the committed state to the next one: reads refer to the argument, writes
  build the result.

  JavaScript numbers are modelled as reals (no rounding, no NaN, no infinities); an index
  is an integer.
\<close>

subsection \<open>Data\<close>

definition BOUNCE_FACTOR :: real where
  "BOUNCE_FACTOR = 3 / 10"

text \<open>
  The track element, as far as the hook looks at it: the widths of its children
  (\<open>getBoundingClientRect().width\<close> of each), its own \<open>offsetWidth\<close>, and the two style
  properties the hook writes. \<open>style_transform = Some x\<close> stands for
  \<open>translate3d(x px, 0, 0)\<close>, \<open>None\<close> for a transform never written.
\<close>

record track =
  slides :: "real list"
  offsetWidth :: real
  style_transition :: string
  style_transform :: "real option"

text \<open>The two kinds of callbacks handed to \<open>setTimeout\<close>.\<close>

datatype timer = ClearTransition | StopDragging

text \<open>The four window events the listener effect registers for.\<close>

datatype win_event = Mousemove | Mouseup | Touchmove | Touchend

record slider =
  isDragging :: bool
  gap :: real
  currentTranslate :: real
  prevTranslate :: real
  maxTranslate :: real
  trackRef :: "track option"
  isMouseDownRef :: bool
  diffRef :: real
  startPosRef :: real
  isInputClickRef :: bool
  timers :: "timer list"
  listeners :: "win_event set"

text \<open>
  A pointer event is a mouse event carrying \<open>clientX\<close>, or a touch event carrying its
  \<open>touches\<close>; the touch list of a touchstart or touchmove holds at least the touch that
  caused it, so it is given as first touch and rest.
\<close>

datatype pointer = Mouse real | Touch real "real list"

fun clientX_of :: "pointer \<Rightarrow> real" where
  "clientX_of (Mouse x) = x"
| "clientX_of (Touch x rest) = x"

text \<open>
  What the release handler asks about \<open>e.target\<close>: \<open>closest('.layout-key')\<close>,
  \<open>trackRef.current.contains(target)\<close>, \<open>closest('#multi-modal-bg')\<close> and
  \<open>closest('#multi-modal-inner-bg')\<close>.
\<close>

record target =
  closest_layout_key :: bool
  in_track :: bool
  closest_multi_modal_bg :: bool
  closest_multi_modal_inner_bg :: bool

subsection \<open>Handlers\<close>

definition calculateDiff :: "slider \<Rightarrow> pointer \<Rightarrow> slider" where
  "calculateDiff s e = s\<lparr>diffRef := clientX_of e - startPosRef s\<rparr>"

definition translate :: "slider \<Rightarrow> slider" where
  "translate s =
     (case trackRef s of
        None \<Rightarrow> s
      | Some t \<Rightarrow>
          (let nextTranslate = prevTranslate s + diffRef s
           in if nextTranslate > 0
              then s\<lparr>currentTranslate := nextTranslate * BOUNCE_FACTOR\<rparr>
              else if nextTranslate < maxTranslate s
              then s\<lparr>currentTranslate :=
                       maxTranslate s + (nextTranslate - maxTranslate s) * BOUNCE_FACTOR\<rparr>
              else s\<lparr>currentTranslate := nextTranslate\<rparr>))"

fun handleMouseDownTouchStart :: "slider \<Rightarrow> pointer \<Rightarrow> slider" where
  "handleMouseDownTouchStart s (Mouse x) = s\<lparr>isMouseDownRef := True, startPosRef := x\<rparr>"
| "handleMouseDownTouchStart s (Touch x rest) = s\<lparr>isMouseDownRef := True, startPosRef := x\<rparr>"

definition handleMouseMoveTouchMove :: "slider \<Rightarrow> pointer \<Rightarrow> slider" where
  "handleMouseMoveTouchMove s e =
     (case trackRef s of
        None \<Rightarrow> s
      | Some t \<Rightarrow>
          (let s1 = calculateDiff s e
           in if isMouseDownRef s1 \<and> diffRef s1 \<noteq> 0
              then translate (s1\<lparr>isDragging := True\<rparr>)
              else s1))"

definition handleMouseUpTouchEnd :: "slider \<Rightarrow> target \<Rightarrow> slider" where
  "handleMouseUpTouchEnd s tg =
     (let s1 = s\<lparr>isMouseDownRef := False,
                 isInputClickRef := (\<not> isDragging s \<and> closest_layout_key tg)\<rparr>
      in case trackRef s of
           None \<Rightarrow> s1
         | Some t \<Rightarrow>
             (let s2 = (if currentTranslate s > 0 then s1\<lparr>currentTranslate := 0\<rparr>
                        else if currentTranslate s < maxTranslate s
                        then s1\<lparr>currentTranslate := maxTranslate s\<rparr>
                        else s1);
                  s3 = s2\<lparr>trackRef := Some (t\<lparr>style_transition := ''transform 0.3s ease-out''\<rparr>),
                          timers := timers s2 @ [ClearTransition]\<rparr>
              in if in_track tg
                 then s3\<lparr>isDragging := False, prevTranslate := currentTranslate s\<rparr>
                 else if closest_multi_modal_bg tg \<or> closest_multi_modal_inner_bg tg
                 then s3\<lparr>prevTranslate := currentTranslate s\<rparr>
                 else s3\<lparr>timers := timers s3 @ [StopDragging],
                         prevTranslate := currentTranslate s\<rparr>))"

text \<open>
  \<open>handleInputClick(setState, option)\<close> returns a callback. The caller's \<open>setState\<close> is a
  parameter acting on the caller's own state \<open>'c\<close>; the object it manages is a map from
  keys to values and \<open>{...prev, ...option}\<close> is \<open>prev ++ option\<close>. The callback is the
  function of the caller's state that remains once \<open>setState\<close> and \<open>option\<close> are given.
\<close>

definition handleInputClick ::
  "slider \<Rightarrow> ((('k \<rightharpoonup> 'v) \<Rightarrow> ('k \<rightharpoonup> 'v)) \<Rightarrow> 'c \<Rightarrow> 'c) \<Rightarrow> ('k \<rightharpoonup> 'v) \<Rightarrow> 'c \<Rightarrow> 'c" where
  "handleInputClick s setState option c =
     (if isDragging s then c
      else if isInputClickRef s then setState (\<lambda>prev. prev ++ option) c
      else c)"

definition handleScrollToIndex :: "slider \<Rightarrow> int \<Rightarrow> slider" where
  "handleScrollToIndex s index =
     (case trackRef s of
        None \<Rightarrow> s
      | Some t \<Rightarrow>
          if length (slides t) = 0 \<or> index < 0 \<or> index \<ge> int (length (slides t)) then s
          else
            (let gapWidth = gap s;
                 translateX = foldl (\<lambda>acc slide. acc - (slide + gapWidth)) 0
                                (take (nat index) (slides t))
             in s\<lparr>currentTranslate := translateX,
                  prevTranslate := translateX,
                  trackRef := Some (t\<lparr>style_transition := ''transform 0.3s ease-out'',
                                      style_transform := Some translateX\<rparr>),
                  timers := timers s @ [ClearTransition]\<rparr>))"

text \<open>The bodies of the two \<open>setTimeout\<close> callbacks.\<close>

fun fire :: "slider \<Rightarrow> timer \<Rightarrow> slider" where
  "fire s ClearTransition =
     (case trackRef s of
        None \<Rightarrow> s
      | Some t \<Rightarrow> s\<lparr>trackRef := Some (t\<lparr>style_transition := ''''\<rparr>)\<rparr>)"
| "fire s StopDragging = s\<lparr>isDragging := False\<rparr>"

subsection \<open>Effects\<close>

text \<open>The effect on \<open>[currentTranslate]\<close>: writes the transform of a mounted track.\<close>

definition transformEffect :: "slider \<Rightarrow> slider" where
  "transformEffect s =
     (case trackRef s of
        None \<Rightarrow> s
      | Some t \<Rightarrow> s\<lparr>trackRef := Some (t\<lparr>style_transform := Some (currentTranslate s)\<rparr>)\<rparr>)"

text \<open>
  The effect on \<open>[isDragging, handleMouseMoveTouchMove, handleMouseUpTouchEnd]\<close>: its body
  adds the four window listeners when \<open>isDragging\<close> holds, its cleanup removes them.
\<close>

definition listenerSetup :: "slider \<Rightarrow> slider" where
  "listenerSetup s =
     (if isDragging s
      then s\<lparr>listeners := insert Touchend (insert Touchmove
                             (insert Mouseup (insert Mousemove (listeners s))))\<rparr>
      else s)"

definition listenerCleanup :: "slider \<Rightarrow> slider" where
  "listenerCleanup s =
     s\<lparr>listeners := listeners s - {Mousemove} - {Mouseup} - {Touchmove} - {Touchend}\<rparr>"

text \<open>The effect on \<open>[]\<close>: measures the track once.\<close>

definition measureEffect :: "slider \<Rightarrow> slider" where
  "measureEffect s =
     (case trackRef s of
        None \<Rightarrow> s
      | Some t \<Rightarrow>
          if length (slides t) > 0
          then (let tracksWidth = foldl (\<lambda>acc slideWidth. acc + slideWidth) 0 (slides t);
                    gapWidth = gap s * (real (length (slides t)) - 1);
                    containerWidth = offsetWidth t
                in s\<lparr>maxTranslate := - (tracksWidth + gapWidth - containerWidth)\<rparr>)
          else s)"

subsection \<open>Renders\<close>

text \<open>
  The first render: the state cells start at 0, the refs at their initial values and the
  ref of a rendered track is bound.
\<close>

definition initial :: "bool \<Rightarrow> real \<Rightarrow> track option \<Rightarrow> slider" where
  "initial d g tr =
     \<lparr>isDragging = d, gap = g, currentTranslate = 0, prevTranslate = 0, maxTranslate = 0,
      trackRef = tr, isMouseDownRef = False, diffRef = 0, startPosRef = 0,
      isInputClickRef = False, timers = [], listeners = {}\<rparr>"

text \<open>
  A later render re-runs an effect when one of its dependencies changed. The two handlers
  among the dependencies of the listener effect change exactly when \<open>currentTranslate\<close>,
  \<open>prevTranslate\<close>, \<open>maxTranslate\<close> or \<open>isDragging\<close> do, the caller's \<open>setIsDragging\<close>
  being the same function at every render (with one that changes the effect would re-run
  at every render, to the same listeners).
\<close>

definition commit :: "slider \<Rightarrow> slider \<Rightarrow> slider" where
  "commit old s =
     (let s1 = (if currentTranslate s \<noteq> currentTranslate old then transformEffect s else s)
      in if isDragging s1 \<noteq> isDragging old \<or> currentTranslate s1 \<noteq> currentTranslate old
            \<or> prevTranslate s1 \<noteq> prevTranslate old \<or> maxTranslate s1 \<noteq> maxTranslate old
         then listenerSetup (listenerCleanup s1)
         else s1)"

text \<open>
  Mounting: after the first render the three effects run in source order, and the
  \<open>setMaxTranslate\<close> of the measuring effect causes a second render. The measuring effect
  has no dependencies and never runs again.
\<close>

definition useSlider_mount :: "bool \<Rightarrow> real \<Rightarrow> track option \<Rightarrow> slider" where
  "useSlider_mount d g tr =
     (let s0 = listenerSetup (transformEffect (initial d g tr))
      in commit s0 (measureEffect s0))"

text \<open>Unmounting runs the cleanup of the listener effect, the only effect with one.\<close>

definition unmount :: "slider \<Rightarrow> slider" where
  "unmount s = listenerCleanup s"

subsection \<open>Event sequences\<close>

text \<open>
  What can happen to a mounted hook: the three pointer handlers, a call of
  \<open>handleScrollToIndex\<close>, a pending timer firing, the page binding the ref to another
  element or to none, and the caller changing the \<open>isDragging\<close> it passes in. Each is
  followed by the render it causes.
\<close>

datatype event =
    PointerDown pointer
  | PointerMove pointer
  | PointerUp target
  | ScrollToIndex int
  | TimerFires timer
  | TrackChange "track option"
  | CallerSetsDragging bool

fun handle :: "slider \<Rightarrow> event \<Rightarrow> slider" where
  "handle s (PointerDown e) = handleMouseDownTouchStart s e"
| "handle s (PointerMove e) = handleMouseMoveTouchMove s e"
| "handle s (PointerUp tg) = handleMouseUpTouchEnd s tg"
| "handle s (ScrollToIndex i) = handleScrollToIndex s i"
| "handle s (TimerFires tm) =
     (if tm \<in> set (timers s) then fire (s\<lparr>timers := remove1 tm (timers s)\<rparr>) tm else s)"
| "handle s (TrackChange tr) = s\<lparr>trackRef := tr\<rparr>"
| "handle s (CallerSetsDragging b) = s\<lparr>isDragging := b\<rparr>"

definition step :: "slider \<Rightarrow> event \<Rightarrow> slider" where
  "step s ev = commit s (handle s ev)"

definition run :: "slider \<Rightarrow> event list \<Rightarrow> slider" where
  "run s evs = foldl step s evs"

text \<open>One gesture: pointer down, any number of moves, release.\<close>

definition gesture :: "slider \<Rightarrow> pointer \<Rightarrow> pointer list \<Rightarrow> target \<Rightarrow> slider" where
  "gesture s e0 ms tg = run s (PointerDown e0 # map PointerMove ms @ [PointerUp tg])"

subsection \<open>Predicates and sample inputs\<close>

text \<open>The window listeners agree with the dragging flag: all four attached, or none.\<close>

definition listeners_match :: "slider \<Rightarrow> bool" where
  "listeners_match s \<longleftrightarrow>
     listeners s = (if isDragging s then {Mousemove, Mouseup, Touchmove, Touchend} else {})"

text \<open>The pointer is held on a mounted track and was pressed at \<open>x\<close>.\<close>

definition held_at :: "real \<Rightarrow> slider \<Rightarrow> bool" where
  "held_at x s \<longleftrightarrow> trackRef s \<noteq> None \<and> isMouseDownRef s \<and> startPosRef s = x"

text \<open>
  A caller's \<open>setState\<close> that also counts its invocations: the caller's state is the
  number of updates so far and the object.
\<close>

definition counted_setState ::
  "(('k \<rightharpoonup> 'v) \<Rightarrow> ('k \<rightharpoonup> 'v)) \<Rightarrow> nat \<times> ('k \<rightharpoonup> 'v) \<Rightarrow> nat \<times> ('k \<rightharpoonup> 'v)" where
  "counted_setState f c = (Suc (fst c), f (snd c))"

text \<open>
  Three tracks 300 pixels wide: one with three slides of 200 pixels (the content
  overflows), one with a single slide of 100 pixels (the content is narrower than the
  track), one with no slide yet.
\<close>

definition wide_track :: track where
  "wide_track = \<lparr>slides = [200, 200, 200], offsetWidth = 300,
                  style_transition = '''', style_transform = None\<rparr>"

definition narrow_track :: track where
  "narrow_track = \<lparr>slides = [100], offsetWidth = 300,
                    style_transition = '''', style_transform = None\<rparr>"

definition empty_track :: track where
  "empty_track = \<lparr>slides = [], offsetWidth = 300,
                   style_transition = '''', style_transform = None\<rparr>"

text \<open>
  Release targets: a \<open>.layout-key\<close> child inside the track, the \<open>#multi-modal-bg\<close>
  element outside it, and any other element outside it.
\<close>

definition on_key :: target where
  "on_key = \<lparr>closest_layout_key = True, in_track = True,
              closest_multi_modal_bg = False, closest_multi_modal_inner_bg = False\<rparr>"

definition on_modal_bg :: target where
  "on_modal_bg = \<lparr>closest_layout_key = False, in_track = False,
                   closest_multi_modal_bg = True, closest_multi_modal_inner_bg = False\<rparr>"

definition outside :: target where
  "outside = \<lparr>closest_layout_key = False, in_track = False,
               closest_multi_modal_bg = False, closest_multi_modal_inner_bg = False\<rparr>"

text \<open>The hook mounted with the default gap on the wide track, not dragging.\<close>

definition mounted :: slider where
  "mounted = useSlider_mount False 16 (Some wide_track)"

text \<open>The same hook while the pointer, pressed at 100, has been dragged to 130.\<close>

definition dragged_right :: slider where
  "dragged_right = run mounted [PointerDown (Mouse 100), PointerMove (Mouse 130)]"

text \<open>After that drag was released on the track, the pointer is pressed again at 50.\<close>

definition pressed_again :: slider where
  "pressed_again = run dragged_right [PointerUp on_key, PointerDown (Mouse 50)]"

text \<open>The pointer, pressed at 100, has been dragged to 90.\<close>

definition dragged_left :: slider where
  "dragged_left = run mounted [PointerDown (Mouse 100), PointerMove (Mouse 90)]"

text \<open>The drag to 130 is under way when the page unmounts the track.\<close>

definition dragged_then_unmounted :: slider where
  "dragged_then_unmounted = run dragged_right [TrackChange None]"

section \<open>Properties\<close>

subsection \<open>Unfolding and frame lemmas\<close>

lemmas handler_defs = calculateDiff_def translate_def handleMouseMoveTouchMove_def
  handleMouseUpTouchEnd_def handleScrollToIndex_def

lemmas effect_defs = transformEffect_def listenerSetup_def listenerCleanup_def measureEffect_def

lemmas render_defs = initial_def useSlider_mount_def commit_def unmount_def step_def run_def

lemmas sample_defs = wide_track_def narrow_track_def empty_track_def on_key_def
  on_modal_bg_def outside_def mounted_def dragged_right_def pressed_again_def dragged_left_def

lemmas eval_defs = handler_defs effect_defs render_defs sample_defs gesture_def
  BOUNCE_FACTOR_def Let_def

lemma handleMouseDownTouchStart_eq:
  "handleMouseDownTouchStart s e = s\<lparr>isMouseDownRef := True, startPosRef := clientX_of e\<rparr>"
  by (cases e) simp_all

lemma fire_frame:
  "maxTranslate (fire s tm) = maxTranslate s" "listeners (fire s tm) = listeners s"
  by (cases tm; simp split: option.splits)+

lemma handle_maxTranslate: "maxTranslate (handle s ev) = maxTranslate s"
  by (cases ev)
     (simp_all add: handler_defs handleMouseDownTouchStart_eq fire_frame Let_def
        split: option.splits)

lemma handle_listeners: "listeners (handle s ev) = listeners s"
  by (cases ev)
     (simp_all add: handler_defs handleMouseDownTouchStart_eq fire_frame Let_def
        split: option.splits)

lemma transformEffect_frame:
  "listeners (transformEffect s) = listeners s"
  "isDragging (transformEffect s) = isDragging s"
  "currentTranslate (transformEffect s) = currentTranslate s"
  "prevTranslate (transformEffect s) = prevTranslate s"
  "maxTranslate (transformEffect s) = maxTranslate s"
  "isInputClickRef (transformEffect s) = isInputClickRef s"
  "isMouseDownRef (transformEffect s) = isMouseDownRef s"
  "startPosRef (transformEffect s) = startPosRef s"
  "timers (transformEffect s) = timers s"
  "(trackRef (transformEffect s) = None) = (trackRef s = None)"
  by (simp_all add: transformEffect_def split: option.splits)

lemma listener_frame:
  "isDragging (listenerSetup s) = isDragging s"
  "isDragging (listenerCleanup s) = isDragging s"
  "currentTranslate (listenerSetup s) = currentTranslate s"
  "currentTranslate (listenerCleanup s) = currentTranslate s"
  "maxTranslate (listenerSetup s) = maxTranslate s"
  "maxTranslate (listenerCleanup s) = maxTranslate s"
  "isInputClickRef (listenerSetup s) = isInputClickRef s"
  "isInputClickRef (listenerCleanup s) = isInputClickRef s"
  "isMouseDownRef (listenerSetup s) = isMouseDownRef s"
  "isMouseDownRef (listenerCleanup s) = isMouseDownRef s"
  "startPosRef (listenerSetup s) = startPosRef s"
  "startPosRef (listenerCleanup s) = startPosRef s"
  "timers (listenerSetup s) = timers s"
  "timers (listenerCleanup s) = timers s"
  "trackRef (listenerSetup s) = trackRef s"
  "trackRef (listenerCleanup s) = trackRef s"
  by (simp_all add: listenerSetup_def listenerCleanup_def)

lemma commit_frame:
  "isDragging (commit old s) = isDragging s"
  "currentTranslate (commit old s) = currentTranslate s"
  "maxTranslate (commit old s) = maxTranslate s"
  "isInputClickRef (commit old s) = isInputClickRef s"
  "isMouseDownRef (commit old s) = isMouseDownRef s"
  "startPosRef (commit old s) = startPosRef s"
  "timers (commit old s) = timers s"
  "(trackRef (commit old s) = None) = (trackRef s = None)"
  by (simp_all add: commit_def listener_frame transformEffect_frame Let_def)

lemma step_maxTranslate: "maxTranslate (step s ev) = maxTranslate s"
  by (simp add: step_def commit_frame handle_maxTranslate)

lemma run_Nil: "run s [] = s"
  by (simp add: run_def)

lemma run_Cons: "run s (ev # evs) = run (step s ev) evs"
  by (simp add: run_def)

lemma run_append: "run s (xs @ ys) = run (run s xs) ys"
  by (simp add: run_def)

lemma run_maxTranslate: "maxTranslate (run s evs) = maxTranslate s"
  by (induction evs arbitrary: s) (simp_all add: run_Nil run_Cons step_maxTranslate)

lemma step_down_eq:
  "step s (PointerDown e) = s\<lparr>isMouseDownRef := True, startPosRef := clientX_of e\<rparr>"
  by (simp add: step_def commit_def handleMouseDownTouchStart_eq)

subsection \<open>The two folds\<close>

lemma foldl_plus_sum:
  "foldl (\<lambda>acc slideWidth. acc + slideWidth) a xs = a + sum_list xs" for a :: real
  by (induction xs arbitrary: a) simp_all

lemma foldl_minus_sum:
  "foldl (\<lambda>acc slide. acc - (slide + g)) a xs = a - sum_list (map (\<lambda>w. w + g) xs)"
  for a :: real
  by (induction xs arbitrary: a) simp_all

subsection \<open>Moves and releases\<close>

lemma translate_frame:
  "isDragging (translate s) = isDragging s" "isMouseDownRef (translate s) = isMouseDownRef s"
  "startPosRef (translate s) = startPosRef s" "trackRef (translate s) = trackRef s"
  by (simp_all add: translate_def Let_def split: option.splits)

lemma move_frame:
  "isMouseDownRef (handleMouseMoveTouchMove s e) = isMouseDownRef s"
  "startPosRef (handleMouseMoveTouchMove s e) = startPosRef s"
  "trackRef (handleMouseMoveTouchMove s e) = trackRef s"
  by (simp_all add: handleMouseMoveTouchMove_def calculateDiff_def translate_frame Let_def
        split: option.splits)

lemma move_isDragging:
  "isDragging (handleMouseMoveTouchMove s e) =
     (isDragging s \<or> trackRef s \<noteq> None \<and> isMouseDownRef s \<and> clientX_of e \<noteq> startPosRef s)"
  by (auto simp: handleMouseMoveTouchMove_def calculateDiff_def translate_frame Let_def
        split: option.splits)

lemma release_isDragging:
  "isDragging (handleMouseUpTouchEnd s tg) =
     (isDragging s \<and> (trackRef s = None \<or> \<not> in_track tg))"
  by (simp add: handleMouseUpTouchEnd_def Let_def split: option.splits)

lemma release_isInputClickRef:
  "isInputClickRef (handleMouseUpTouchEnd s tg) = (\<not> isDragging s \<and> closest_layout_key tg)"
  by (simp add: handleMouseUpTouchEnd_def Let_def split: option.splits)

lemma release_flags:
  "isInputClickRef (step s (PointerUp tg)) = (\<not> isDragging s \<and> closest_layout_key tg)"
  "\<not> isDragging s \<Longrightarrow> \<not> isDragging (step s (PointerUp tg))"
  by (simp_all add: step_def commit_frame release_isDragging release_isInputClickRef)

lemma release_in_track_stops:
  "trackRef s = Some t \<Longrightarrow> in_track tg \<Longrightarrow> \<not> isDragging (step s (PointerUp tg))"
  by (simp add: step_def commit_frame release_isDragging)

lemma release_outside_schedules:
  assumes "trackRef s = Some t" and "\<not> in_track tg"
    and "\<not> closest_multi_modal_bg tg" and "\<not> closest_multi_modal_inner_bg tg"
  shows "StopDragging \<in> set (timers (step s (PointerUp tg)))"
  using assms by (simp add: step_def commit_frame handleMouseUpTouchEnd_def Let_def)

lemma timer_stops_dragging:
  "StopDragging \<in> set (timers s) \<Longrightarrow> \<not> isDragging (step s (TimerFires StopDragging))"
  by (simp add: step_def commit_frame)

text \<open>A move that reports the starting coordinate changes at most \<open>diffRef\<close>.\<close>

lemma step_still_move:
  assumes "clientX_of m = startPosRef s"
  shows "\<exists>d. step s (PointerMove m) = s\<lparr>diffRef := d\<rparr>"
proof (cases "trackRef s")
  case None
  then have "step s (PointerMove m) = s\<lparr>diffRef := diffRef s\<rparr>"
    by (simp add: step_def commit_def handleMouseMoveTouchMove_def)
  then show ?thesis ..
next
  case (Some t)
  with assms have "step s (PointerMove m) = s\<lparr>diffRef := 0\<rparr>"
    by (simp add: step_def commit_def handleMouseMoveTouchMove_def calculateDiff_def)
  then show ?thesis ..
qed

lemma run_still_moves:
  "\<forall>m\<in>set ms. clientX_of m = startPosRef s \<Longrightarrow>
     \<exists>d. run s (map PointerMove ms) = s\<lparr>diffRef := d\<rparr>"
proof (induction ms arbitrary: s)
  case Nil
  have "run s (map PointerMove []) = s\<lparr>diffRef := diffRef s\<rparr>"
    by (simp add: run_Nil)
  then show ?case ..
next
  case (Cons m ms)
  then obtain d1 where d1: "step s (PointerMove m) = s\<lparr>diffRef := d1\<rparr>"
    using step_still_move [of m s] by auto
  have "\<forall>m\<in>set ms. clientX_of m = startPosRef (s\<lparr>diffRef := d1\<rparr>)"
    using Cons.prems by simp
  from Cons.IH [OF this]
  obtain d where "run (s\<lparr>diffRef := d1\<rparr>) (map PointerMove ms) = s\<lparr>diffRef := d\<rparr>"
    by auto
  with d1 have "run s (map PointerMove (m # ms)) = s\<lparr>diffRef := d\<rparr>"
    by (simp add: run_Cons)
  then show ?case ..
qed

text \<open>While the pointer is held on a mounted track, a move away from the start drags.\<close>

lemma step_move_held: "held_at x s \<Longrightarrow> held_at x (step s (PointerMove m))"
  by (simp add: held_at_def step_def commit_frame move_frame)

lemma step_move_drags:
  "held_at x s \<Longrightarrow> isDragging s \<or> clientX_of m \<noteq> x \<Longrightarrow> isDragging (step s (PointerMove m))"
  by (auto simp: held_at_def step_def commit_frame move_isDragging)

lemma run_moves_drag:
  "held_at x s \<Longrightarrow> isDragging s \<or> (\<exists>m\<in>set ms. clientX_of m \<noteq> x) \<Longrightarrow>
     isDragging (run s (map PointerMove ms))"
proof (induction ms arbitrary: s)
  case Nil
  then show ?case by (simp add: run_Nil)
next
  case (Cons m ms)
  have h: "held_at x (step s (PointerMove m))"
    using Cons.prems(1) by (rule step_move_held)
  have "isDragging (step s (PointerMove m)) \<or> (\<exists>m\<in>set ms. clientX_of m \<noteq> x)"
    using Cons.prems step_move_drags [of x s m] by auto
  from Cons.IH [OF h this] show ?case by (simp add: run_Cons)
qed

lemma gesture_unfold:
  "gesture s e0 ms tg =
     step (run (step s (PointerDown e0)) (map PointerMove ms)) (PointerUp tg)"
  by (simp add: gesture_def run_Cons run_append run_Nil)

subsection \<open>The listener invariant\<close>

lemma commit_listeners_match:
  assumes "listeners_match old" and "listeners s = listeners old"
  shows "listeners_match (commit old s)"
  using assms
  by (auto simp: listeners_match_def commit_def listenerSetup_def listenerCleanup_def
        transformEffect_frame Let_def split: if_splits)

lemma first_render_listeners_match:
  "listeners_match (listenerSetup (transformEffect (initial d g tr)))"
  by (auto simp: listeners_match_def initial_def transformEffect_def listenerSetup_def
           split: option.splits)

lemma measureEffect_listeners: "listeners (measureEffect s) = listeners s"
  by (simp add: measureEffect_def Let_def split: option.splits)

lemma mount_listeners_match: "listeners_match (useSlider_mount d g tr)"
  by (simp add: useSlider_mount_def Let_def commit_listeners_match
        first_render_listeners_match measureEffect_listeners)

lemma step_listeners_match: "listeners_match s \<Longrightarrow> listeners_match (step s ev)"
  by (simp add: step_def commit_listeners_match handle_listeners)

lemma run_listeners_match: "listeners_match s \<Longrightarrow> listeners_match (run s evs)"
  by (induction evs arbitrary: s) (simp_all add: run_Nil run_Cons step_listeners_match)

subsection \<open>Settling inside the range\<close>

text \<open>
  Where the measured bound is not positive, a release on a mounted track leaves the
  offset between the bound and 0.
\<close>

lemma settle_within_bounds:
  assumes "trackRef s = Some t" and "maxTranslate s \<le> 0"
  shows "maxTranslate (handleMouseUpTouchEnd s tg) \<le> currentTranslate (handleMouseUpTouchEnd s tg)
       \<and> currentTranslate (handleMouseUpTouchEnd s tg) \<le> 0"
  using assms by (auto simp: handleMouseUpTouchEnd_def Let_def)

section \<open>The claims of the specification\<close>

subsection \<open>C1: the offset after a release\<close>

text \<open>
  Claim C1: for every drag sequence, once the gesture ends (after
  \<open>handleMouseUpTouchEnd\<close> has run its snap-back clamping), \<open>currentTranslate\<close> is at most
  0 and at least \<open>maxTranslate\<close>.

  The release handler compares with 0 first and with \<open>maxTranslate\<close> second, which keeps
  the offset in range when \<open>maxTranslate \<le> 0\<close> (lemma \<open>settle_within_bounds\<close>). The
  measuring effect, however, yields a positive \<open>maxTranslate\<close> whenever the slides are
  narrower than the track, and then the handler moves an offset that was in place out of
  range. On the track with one slide of 100 pixels the bound is 200, and a press and
  release without any movement leaves the offset at 200, above 0.
\<close>

theorem snap_back_leaves_range_on_narrow_track:
  "maxTranslate (useSlider_mount False 16 (Some narrow_track)) = 200
   \<and> currentTranslate (useSlider_mount False 16 (Some narrow_track)) = 0
   \<and> currentTranslate
        (gesture (useSlider_mount False 16 (Some narrow_track)) (Mouse 10) [] on_key) = 200
   \<and> \<not> currentTranslate
        (gesture (useSlider_mount False 16 (Some narrow_track)) (Mouse 10) [] on_key) \<le> 0"
  by (simp add: eval_defs)

subsection \<open>C2: scrolling to an index\<close>

text \<open>
  Claim C2: for every index \<open>i\<close>, \<open>handleScrollToIndex i\<close> with a mounted track and
  \<open>0 \<le> i <\<close> number of children sets the offset to the negative of the sum over the first
  \<open>i\<close> children of (child width + gap); for every \<open>i\<close> out of that range, or when the
  track has no children, the call changes no state. (With no track mounted it changes
  none either.)
\<close>

theorem handleScrollToIndex_offset:
  "(trackRef s = Some t \<and> 0 \<le> i \<and> i < int (length (slides t)) \<longrightarrow>
      currentTranslate (handleScrollToIndex s i)
        = - sum_list (map (\<lambda>w. w + gap s) (take (nat i) (slides t)))
      \<and> prevTranslate (handleScrollToIndex s i) = currentTranslate (handleScrollToIndex s i))
   \<and> ((trackRef s = None
        \<or> (trackRef s = Some t \<and> (slides t = [] \<or> i < 0 \<or> int (length (slides t)) \<le> i)))
       \<longrightarrow> handleScrollToIndex s i = s)"
  by (auto simp: handleScrollToIndex_def Let_def foldl_minus_sum)

theorem handleScrollToIndex_offset_witness:
  "trackRef mounted = Some (wide_track\<lparr>style_transform := Some 0\<rparr>)
   \<and> currentTranslate (handleScrollToIndex mounted 2) = - 432
   \<and> prevTranslate (handleScrollToIndex mounted 2) = - 432
   \<and> handleScrollToIndex mounted 3 = mounted
   \<and> handleScrollToIndex mounted (- 1) = mounted"
  using handleScrollToIndex_offset [of mounted "wide_track\<lparr>style_transform := Some 0\<rparr>" 2]
    handleScrollToIndex_offset [of mounted "wide_track\<lparr>style_transform := Some 0\<rparr>" 3]
    handleScrollToIndex_offset [of mounted "wide_track\<lparr>style_transform := Some 0\<rparr>" "- 1"]
  by (simp add: eval_defs)

subsection \<open>C3: damping beyond a bound\<close>

text \<open>
  Claim C3 as stated: for every pointer-move during a held gesture, if the tentative
  offset \<open>prevTranslate + delta\<close> exceeds 0 or undershoots \<open>maxTranslate\<close>, the rendered
  offset equals the bound plus exactly 0.3 times the excess beyond that bound.

  It fails for a move with delta 0: the handler translates only when
  \<open>diffRef.current !== 0\<close>. After an overscrolling drag was released, \<open>prevTranslate\<close>
  is 9 while the offset has snapped back to 0; the pointer is pressed at 50 and a move
  reports 50 again. The tentative offset 9 exceeds 0, and the offset stays 0 instead of
  becoming 2.7.
\<close>

theorem damping_skipped_without_delta:
  "trackRef pressed_again \<noteq> None
   \<and> isMouseDownRef pressed_again
   \<and> prevTranslate pressed_again + (clientX_of (Mouse 50) - startPosRef pressed_again) = 9
   \<and> prevTranslate pressed_again + (clientX_of (Mouse 50) - startPosRef pressed_again) > 0
   \<and> currentTranslate (handleMouseMoveTouchMove pressed_again (Mouse 50)) = 0
   \<and> currentTranslate (handleMouseMoveTouchMove pressed_again (Mouse 50))
       \<noteq> 0 + (3 / 10)
            * (prevTranslate pressed_again + (clientX_of (Mouse 50) - startPosRef pressed_again) - 0)"
  by (simp add: eval_defs)

text \<open>
  Claim C3, amended: for every pointer-move with a nonzero delta while the pointer is held
  and the track is mounted, if the tentative offset \<open>prevTranslate + delta\<close> exceeds 0 the
  offset becomes 0 plus 0.3 times the excess over 0; otherwise, if it undershoots
  \<open>maxTranslate\<close>, the offset becomes \<open>maxTranslate\<close> plus 0.3 times the (negative) excess
  below \<open>maxTranslate\<close>.
\<close>

theorem overscroll_damped:
  assumes "trackRef s \<noteq> None" and "isMouseDownRef s" and "clientX_of e \<noteq> startPosRef s"
  shows "(prevTranslate s + (clientX_of e - startPosRef s) > 0 \<longrightarrow>
           currentTranslate (handleMouseMoveTouchMove s e)
             = 0 + (3 / 10) * (prevTranslate s + (clientX_of e - startPosRef s) - 0))
       \<and> (\<not> prevTranslate s + (clientX_of e - startPosRef s) > 0
           \<and> prevTranslate s + (clientX_of e - startPosRef s) < maxTranslate s \<longrightarrow>
           currentTranslate (handleMouseMoveTouchMove s e)
             = maxTranslate s
               + (3 / 10) * (prevTranslate s + (clientX_of e - startPosRef s) - maxTranslate s))"
  using assms by (auto simp: handler_defs Let_def BOUNCE_FACTOR_def)

theorem overscroll_damped_witness:
  "trackRef (step mounted (PointerDown (Mouse 100))) \<noteq> None
   \<and> isMouseDownRef (step mounted (PointerDown (Mouse 100)))
   \<and> startPosRef (step mounted (PointerDown (Mouse 100))) = 100
   \<and> maxTranslate (step mounted (PointerDown (Mouse 100))) = - 332
   \<and> currentTranslate
        (handleMouseMoveTouchMove (step mounted (PointerDown (Mouse 100))) (Mouse 130)) = 9
   \<and> currentTranslate
        (handleMouseMoveTouchMove (step mounted (PointerDown (Mouse 100))) (Mouse (- 900)))
       = - 332 + (3 / 10) * (- 1000 - (- 332))"
  using overscroll_damped [of "step mounted (PointerDown (Mouse 100))" "Mouse 130"]
    overscroll_damped [of "step mounted (PointerDown (Mouse 100))" "Mouse (- 900)"]
  by (simp add: eval_defs)

subsection \<open>C4: taps and drags on an input-like child\<close>

text \<open>
  Claim C4 as stated: for every gesture with zero net pointer movement that ends on an
  input-like child (one matching \<open>.layout-key\<close>), the callback returned by
  \<open>handleInputClick\<close> triggers the provided state update exactly once; for every gesture
  with nonzero movement, that callback never triggers it.

  The first half fails for a gesture that moves and returns: the pointer is pressed at
  100, moved to 110 and back to 100, and released on a \<open>.layout-key\<close> child. The net
  movement is zero (and \<open>diffRef\<close> is 0 at the release), but the move to 110 has set the
  dragging flag, so the release clears \<open>isInputClickRef\<close> and the callback performs no
  update. It fails as well for a plain tap that begins while the dragging flag is still
  set, as it is after a drag was released over \<open>#multi-modal-bg\<close>.
\<close>

theorem returning_to_start_suppresses_tap:
  "clientX_of (last [Mouse 110, Mouse 100]) = clientX_of (Mouse 100)
   \<and> diffRef (gesture mounted (Mouse 100) [Mouse 110, Mouse 100] on_key) = 0
   \<and> closest_layout_key on_key
   \<and> fst (handleInputClick (gesture mounted (Mouse 100) [Mouse 110, Mouse 100] on_key)
            counted_setState [''open'' \<mapsto> True] (0, Map.empty)) = 0
   \<and> isDragging (step dragged_right (PointerUp on_modal_bg))
   \<and> fst (handleInputClick
            (gesture (step dragged_right (PointerUp on_modal_bg)) (Mouse 100) [] on_key)
            counted_setState [''open'' \<mapsto> True] (0, Map.empty)) = 0"
  by (simp add: eval_defs handleInputClick_def counted_setState_def)

text \<open>
  Claim C4, amended: for every gesture that starts with the dragging flag clear, whose
  pointer-moves all report the starting X coordinate, and that ends on an input-like
  child, the callback returned by \<open>handleInputClick\<close> triggers the provided state update
  exactly once (it is one call of \<open>setState\<close> with the merging updater); for every
  gesture on a mounted track with at least one pointer-move away from the starting X
  coordinate, that callback never triggers it (it leaves the caller's state as it is,
  whatever \<open>setState\<close> would do).
\<close>

theorem tap_updates_once_drag_never:
  "(\<not> isDragging s \<and> (\<forall>m\<in>set ms. clientX_of m = clientX_of e0) \<and> closest_layout_key tg
      \<longrightarrow> handleInputClick (gesture s e0 ms tg) setState option c
            = setState (\<lambda>prev. prev ++ option) c)
   \<and> (trackRef s \<noteq> None \<and> (\<exists>m\<in>set ms. clientX_of m \<noteq> clientX_of e0)
      \<longrightarrow> handleInputClick (gesture s e0 ms tg) setState option c = c)"
proof (intro conjI impI)
  let ?s1 = "step s (PointerDown e0)"
  let ?s2 = "run ?s1 (map PointerMove ms)"
  assume a: "\<not> isDragging s \<and> (\<forall>m\<in>set ms. clientX_of m = clientX_of e0) \<and> closest_layout_key tg"
  then have "\<forall>m\<in>set ms. clientX_of m = startPosRef ?s1"
    by (simp add: step_down_eq)
  from run_still_moves [OF this] obtain d where "?s2 = ?s1\<lparr>diffRef := d\<rparr>"
    by auto
  then have "\<not> isDragging ?s2"
    using a by (simp add: step_down_eq)
  then have "isInputClickRef (gesture s e0 ms tg)" and "\<not> isDragging (gesture s e0 ms tg)"
    using a by (simp_all add: gesture_unfold release_flags)
  then show "handleInputClick (gesture s e0 ms tg) setState option c
            = setState (\<lambda>prev. prev ++ option) c"
    by (simp add: handleInputClick_def)
next
  let ?s1 = "step s (PointerDown e0)"
  let ?s2 = "run ?s1 (map PointerMove ms)"
  assume b: "trackRef s \<noteq> None \<and> (\<exists>m\<in>set ms. clientX_of m \<noteq> clientX_of e0)"
  then have "held_at (clientX_of e0) ?s1"
    by (simp add: held_at_def step_down_eq)
  then have "isDragging ?s2"
    using b by (intro run_moves_drag [of "clientX_of e0"]) auto
  then have "\<not> isInputClickRef (gesture s e0 ms tg)"
    by (simp add: gesture_unfold release_flags)
  then show "handleInputClick (gesture s e0 ms tg) setState option c = c"
    by (simp add: handleInputClick_def)
qed

theorem tap_updates_once_drag_never_witness:
  "\<not> isDragging mounted
   \<and> closest_layout_key on_key
   \<and> trackRef mounted \<noteq> None
   \<and> fst (handleInputClick (gesture mounted (Mouse 100) [Mouse 100] on_key)
            counted_setState [''open'' \<mapsto> True] (0, Map.empty)) = 1
   \<and> snd (handleInputClick (gesture mounted (Mouse 100) [Mouse 100] on_key)
            counted_setState [''open'' \<mapsto> True] (0, Map.empty)) ''open'' = Some True
   \<and> handleInputClick (gesture mounted (Mouse 100) [Mouse 130] on_key)
        counted_setState [''open'' \<mapsto> True] (0, Map.empty) = (0, Map.empty)"
  using tap_updates_once_drag_never [of mounted "[Mouse 100]" "Mouse 100" on_key
      counted_setState "[''open'' \<mapsto> True]" "(0, Map.empty)"]
    tap_updates_once_drag_never [of mounted "[Mouse 130]" "Mouse 100" on_key
      counted_setState "[''open'' \<mapsto> True]" "(0, Map.empty)"]
  by (simp add: counted_setState_def eval_defs)

subsection \<open>C5: the window listeners\<close>

text \<open>
  Claim C5 as stated: at every point in the hook's lifetime the window
  mousemove/mouseup/touchmove/touchend listeners are attached if and only if the dragging
  flag is set; in particular they are removed on every gesture release and on unmount.

  The second part fails for a release over \<open>#multi-modal-bg\<close> outside the track: the
  handler returns before it calls or schedules \<open>setIsDragging(false)\<close>, so the flag
  stays set and the listeners stay attached after the release, also once every timer the
  release has scheduled has fired.
\<close>

theorem release_on_modal_keeps_listeners:
  "isDragging dragged_right
   \<and> trackRef dragged_right \<noteq> None
   \<and> isDragging (step dragged_right (PointerUp on_modal_bg))
   \<and> timers (step dragged_right (PointerUp on_modal_bg)) = [ClearTransition]
   \<and> timers (run dragged_right [PointerUp on_modal_bg, TimerFires ClearTransition]) = []
   \<and> isDragging (run dragged_right [PointerUp on_modal_bg, TimerFires ClearTransition])
   \<and> Mousemove \<in> listeners (run dragged_right [PointerUp on_modal_bg, TimerFires ClearTransition])
   \<and> Mouseup \<in> listeners (run dragged_right [PointerUp on_modal_bg, TimerFires ClearTransition])
   \<and> Touchmove \<in> listeners (run dragged_right [PointerUp on_modal_bg, TimerFires ClearTransition])
   \<and> Touchend \<in> listeners (run dragged_right [PointerUp on_modal_bg, TimerFires ClearTransition])
   \<and> listeners (run dragged_right [PointerUp on_modal_bg, TimerFires ClearTransition]) \<noteq> {}"
  by (simp add: eval_defs)

text \<open>
  Claim C5, amended: after the mount and after every event with its render, the four
  window listeners are all attached if the dragging flag is set and none is attached
  otherwise; they are removed by a release inside the mounted track, by the zero-delay
  timer that a release outside the track and outside the two multi-modal backgrounds
  schedules, and on unmount. A release outside the mounted track over one of the two
  multi-modal backgrounds leaves the dragging flag and the listeners as they were and
  schedules nothing but the clearing of the transition.
\<close>

theorem listeners_iff_dragging:
  assumes "s = run (useSlider_mount d g tr) evs"
  shows "((listeners s = {Mousemove, Mouseup, Touchmove, Touchend}) = isDragging s)
     \<and> ((listeners s = {}) = (\<not> isDragging s))
     \<and> (trackRef s \<noteq> None \<and> in_track tg \<longrightarrow> listeners (step s (PointerUp tg)) = {})
     \<and> (trackRef s \<noteq> None \<and> \<not> in_track tg \<and> \<not> closest_multi_modal_bg tg
          \<and> \<not> closest_multi_modal_inner_bg tg
         \<longrightarrow> listeners (run s [PointerUp tg, TimerFires StopDragging]) = {})
     \<and> (trackRef s \<noteq> None \<and> \<not> in_track tg
          \<and> (closest_multi_modal_bg tg \<or> closest_multi_modal_inner_bg tg)
         \<longrightarrow> isDragging (step s (PointerUp tg)) = isDragging s
             \<and> listeners (step s (PointerUp tg)) = listeners s
             \<and> timers (step s (PointerUp tg)) = timers s @ [ClearTransition])
     \<and> listeners (unmount s) = {}"
proof -
  have m: "listeners_match s"
    using assms by (simp add: run_listeners_match mount_listeners_match)
  have iff: "((listeners s = {Mousemove, Mouseup, Touchmove, Touchend}) = isDragging s)
     \<and> ((listeners s = {}) = (\<not> isDragging s))"
    using m by (auto simp: listeners_match_def split: if_splits)
  have inside: "listeners (step s (PointerUp tg)) = {}" if "trackRef s \<noteq> None \<and> in_track tg"
  proof -
    from that obtain t where "trackRef s = Some t" and "in_track tg"
      by auto
    then have "\<not> isDragging (step s (PointerUp tg))"
      by (rule release_in_track_stops)
    moreover have "listeners_match (step s (PointerUp tg))"
      using m by (rule step_listeners_match)
    ultimately show ?thesis
      by (simp add: listeners_match_def)
  qed
  have outside: "listeners (run s [PointerUp tg, TimerFires StopDragging]) = {}"
    if "trackRef s \<noteq> None \<and> \<not> in_track tg \<and> \<not> closest_multi_modal_bg tg
          \<and> \<not> closest_multi_modal_inner_bg tg"
  proof -
    let ?s1 = "step s (PointerUp tg)"
    from that obtain t where "trackRef s = Some t"
      by auto
    with that have "StopDragging \<in> set (timers ?s1)"
      by (simp add: release_outside_schedules)
    then have "\<not> isDragging (step ?s1 (TimerFires StopDragging))"
      by (rule timer_stops_dragging)
    moreover have "listeners_match (step ?s1 (TimerFires StopDragging))"
      using m by (intro step_listeners_match)
    ultimately show ?thesis
      by (simp add: listeners_match_def run_Cons run_Nil)
  qed
  have modal: "isDragging (step s (PointerUp tg)) = isDragging s
             \<and> listeners (step s (PointerUp tg)) = listeners s
             \<and> timers (step s (PointerUp tg)) = timers s @ [ClearTransition]"
    if "trackRef s \<noteq> None \<and> \<not> in_track tg
          \<and> (closest_multi_modal_bg tg \<or> closest_multi_modal_inner_bg tg)"
  proof -
    let ?s1 = "step s (PointerUp tg)"
    from that obtain t where t: "trackRef s = Some t"
      by auto
    have d: "isDragging ?s1 = isDragging s"
      using that by (simp add: step_def commit_frame release_isDragging)
    have "listeners_match ?s1"
      using m by (rule step_listeners_match)
    with m d have l: "listeners ?s1 = listeners s"
      by (simp add: listeners_match_def)
    have "timers ?s1 = timers s @ [ClearTransition]"
      using that t by (auto simp: step_def commit_frame handleMouseUpTouchEnd_def Let_def)
    with d l show ?thesis
      by simp
  qed
  have "listeners (unmount s) = {}"
    using m by (auto simp: unmount_def listenerCleanup_def listeners_match_def split: if_splits)
  with iff inside outside modal show ?thesis
    by blast
qed

theorem listeners_iff_dragging_witness:
  "isDragging dragged_right
   \<and> listeners dragged_right = {Mousemove, Mouseup, Touchmove, Touchend}
   \<and> timers dragged_right = []
   \<and> trackRef dragged_right \<noteq> None
   \<and> in_track on_key
   \<and> listeners (step dragged_right (PointerUp on_key)) = {}
   \<and> listeners (run dragged_right [PointerUp outside, TimerFires StopDragging]) = {}
   \<and> closest_multi_modal_bg on_modal_bg
   \<and> isDragging (step dragged_right (PointerUp on_modal_bg))
   \<and> listeners (step dragged_right (PointerUp on_modal_bg))
       = {Mousemove, Mouseup, Touchmove, Touchend}
   \<and> timers (step dragged_right (PointerUp on_modal_bg)) = [ClearTransition]
   \<and> listeners (unmount dragged_right) = {}
   \<and> \<not> isDragging mounted
   \<and> listeners mounted = {}"
  using listeners_iff_dragging [of dragged_right False 16 "Some wide_track"
      "[PointerDown (Mouse 100), PointerMove (Mouse 130)]" on_key]
    listeners_iff_dragging [of dragged_right False 16 "Some wide_track"
      "[PointerDown (Mouse 100), PointerMove (Mouse 130)]" outside]
    listeners_iff_dragging [of dragged_right False 16 "Some wide_track"
      "[PointerDown (Mouse 100), PointerMove (Mouse 130)]" on_modal_bg]
    listeners_iff_dragging [of mounted False 16 "Some wide_track" "[]" on_key]
  by (simp add: dragged_right_def mounted_def run_Nil on_key_def outside_def on_modal_bg_def)
     (simp add: eval_defs)

subsection \<open>C6: a move inside the range\<close>

text \<open>
  Claim C6 as stated: for every pointer-move event while the button or touch is held and
  the tentative offset lies within \<open>[maxTranslate, 0]\<close>, the rendered offset equals the
  previous settled offset plus delta, where \<open>delta = currentX - startX\<close> with \<open>startX\<close>
  recorded at pointer-down.

  It fails for a move with delta 0, which the handler does not translate: the pointer,
  pressed at 100, has been dragged to 90 (offset -10) and a move reports 100 again. The
  tentative offset is 0, inside the range, and the offset stays -10.
\<close>

theorem zero_delta_keeps_offset:
  "trackRef dragged_left \<noteq> None
   \<and> isMouseDownRef dragged_left
   \<and> startPosRef dragged_left = 100
   \<and> maxTranslate dragged_left
       \<le> prevTranslate dragged_left + (clientX_of (Mouse 100) - startPosRef dragged_left)
   \<and> prevTranslate dragged_left + (clientX_of (Mouse 100) - startPosRef dragged_left) \<le> 0
   \<and> currentTranslate (handleMouseMoveTouchMove dragged_left (Mouse 100)) = - 10
   \<and> currentTranslate (handleMouseMoveTouchMove dragged_left (Mouse 100))
       \<noteq> prevTranslate dragged_left + (clientX_of (Mouse 100) - startPosRef dragged_left)"
  by (simp add: eval_defs)

text \<open>
  Claim C6, amended: pointer-down records the starting X coordinate and sets the held
  flag; for every pointer-move with a nonzero delta while the pointer is held and the
  track is mounted, if the tentative offset lies within \<open>[maxTranslate, 0]\<close>, the offset
  becomes the previous settled offset plus delta, where \<open>delta = currentX - startX\<close>.
\<close>

theorem move_within_range_adds_delta:
  "startPosRef (handleMouseDownTouchStart s0 e0) = clientX_of e0
   \<and> isMouseDownRef (handleMouseDownTouchStart s0 e0)
   \<and> (trackRef s \<noteq> None \<and> isMouseDownRef s \<and> clientX_of e \<noteq> startPosRef s
       \<and> maxTranslate s \<le> prevTranslate s + (clientX_of e - startPosRef s)
       \<and> prevTranslate s + (clientX_of e - startPosRef s) \<le> 0
      \<longrightarrow> currentTranslate (handleMouseMoveTouchMove s e)
            = prevTranslate s + (clientX_of e - startPosRef s))"
  by (cases e0) (auto simp: handler_defs Let_def)

theorem move_within_range_adds_delta_witness:
  "startPosRef (handleMouseDownTouchStart mounted (Mouse 100)) = 100
   \<and> isMouseDownRef (handleMouseDownTouchStart mounted (Mouse 100))
   \<and> trackRef (handleMouseDownTouchStart mounted (Mouse 100)) \<noteq> None
   \<and> maxTranslate (handleMouseDownTouchStart mounted (Mouse 100)) = - 332
   \<and> prevTranslate (handleMouseDownTouchStart mounted (Mouse 100)) = 0
   \<and> currentTranslate
        (handleMouseMoveTouchMove (handleMouseDownTouchStart mounted (Mouse 100)) (Mouse 90))
       = - 10"
  using move_within_range_adds_delta
    [of mounted "Mouse 100" "handleMouseDownTouchStart mounted (Mouse 100)" "Mouse 90"]
  by (simp add: eval_defs)

subsection \<open>C7: the measured bound\<close>

text \<open>
  Claim C7 as stated: after mount, \<open>maxTranslate\<close> equals the negative of (sum of all
  measured child widths + gap * (number of children - 1) - container width), and this
  bound is computed exactly once.

  It fails for a track mounted without children: the effect measures only when
  \<open>slides.length > 0\<close>, so \<open>maxTranslate\<close> stays 0, while the formula gives
  \<open>- (0 + 16 * (0 - 1) - 300) = 316\<close>.
\<close>

theorem empty_track_bound_stays_zero:
  "maxTranslate (useSlider_mount False 16 (Some empty_track)) = 0
   \<and> - (sum_list (slides empty_track) + 16 * (real (length (slides empty_track)) - 1)
         - offsetWidth empty_track) = 316
   \<and> maxTranslate (useSlider_mount False 16 (Some empty_track))
       \<noteq> - (sum_list (slides empty_track) + 16 * (real (length (slides empty_track)) - 1)
            - offsetWidth empty_track)"
  by (simp add: eval_defs)

text \<open>
  Claim C7, amended: after a mount on a track with at least one child, \<open>maxTranslate\<close>
  equals the negative of (sum of all measured child widths + gap * (number of
  children - 1) - container width); after a mount on a track without children, or without a
  track, it is 0; and it is computed only then: whatever happens afterwards, also to the
  track, it keeps the value of the mount.
\<close>

theorem maxTranslate_measured_once:
  "(slides t \<noteq> [] \<longrightarrow>
      maxTranslate (run (useSlider_mount d g (Some t)) evs)
        = - (sum_list (slides t) + g * (real (length (slides t)) - 1) - offsetWidth t))
   \<and> (slides t = [] \<longrightarrow> maxTranslate (run (useSlider_mount d g (Some t)) evs) = 0)
   \<and> maxTranslate (run (useSlider_mount d g None) evs) = 0"
  by (simp add: run_maxTranslate useSlider_mount_def commit_frame initial_def effect_defs
        foldl_plus_sum Let_def)

theorem maxTranslate_measured_once_witness:
  "slides wide_track \<noteq> []
   \<and> maxTranslate
        (run (useSlider_mount False 16 (Some wide_track))
           [PointerDown (Mouse 100), PointerMove (Mouse 130),
            TrackChange (Some narrow_track), PointerUp on_key]) = - 332
   \<and> slides empty_track = []
   \<and> maxTranslate
        (run (useSlider_mount False 16 (Some empty_track)) [TrackChange (Some wide_track)]) = 0"
  using maxTranslate_measured_once [of wide_track False 16
      "[PointerDown (Mouse 100), PointerMove (Mouse 130),
        TrackChange (Some narrow_track), PointerUp on_key]"]
    maxTranslate_measured_once [of empty_track False 16 "[TrackChange (Some wide_track)]"]
  by (simp add: wide_track_def empty_track_def)

subsection \<open>C8: silent returns\<close>

text \<open>
  Claim C8: for every operation of the hook (\<open>translate\<close>, \<open>handleMouseMoveTouchMove\<close>,
  \<open>handleMouseUpTouchEnd\<close>, \<open>handleScrollToIndex\<close>), when the track element is not mounted
  or the index is out of range, the operation returns without raising or reporting an
  error and leaves the translation state (\<open>currentTranslate\<close>, \<open>prevTranslate\<close>,
  \<open>maxTranslate\<close>) unchanged. None of these paths of the source raises, and each is a
  plain state here; \<open>translate\<close>, the move handler and \<open>handleScrollToIndex\<close> change
  nothing at all.
\<close>

theorem unmounted_or_out_of_range_is_silent:
  "(trackRef s = None \<longrightarrow>
      translate s = s
      \<and> handleMouseMoveTouchMove s e = s
      \<and> currentTranslate (handleMouseUpTouchEnd s tg) = currentTranslate s
      \<and> prevTranslate (handleMouseUpTouchEnd s tg) = prevTranslate s
      \<and> maxTranslate (handleMouseUpTouchEnd s tg) = maxTranslate s
      \<and> handleScrollToIndex s i = s)
   \<and> (trackRef s = Some t \<and> (i < 0 \<or> int (length (slides t)) \<le> i)
       \<longrightarrow> handleScrollToIndex s i = s)"
  by (auto simp: handler_defs Let_def)

theorem unmounted_or_out_of_range_is_silent_witness:
  "trackRef (useSlider_mount False 16 None) = None
   \<and> translate (useSlider_mount False 16 None) = useSlider_mount False 16 None
   \<and> handleMouseMoveTouchMove (useSlider_mount False 16 None) (Mouse 130)
       = useSlider_mount False 16 None
   \<and> currentTranslate (handleMouseUpTouchEnd (useSlider_mount False 16 None) on_key) = 0
   \<and> prevTranslate (handleMouseUpTouchEnd (useSlider_mount False 16 None) on_key) = 0
   \<and> maxTranslate (handleMouseUpTouchEnd (useSlider_mount False 16 None) on_key) = 0
   \<and> handleScrollToIndex (useSlider_mount False 16 None) 1 = useSlider_mount False 16 None
   \<and> trackRef mounted = Some (wide_track\<lparr>style_transform := Some 0\<rparr>)
   \<and> handleScrollToIndex mounted 7 = mounted"
  using unmounted_or_out_of_range_is_silent
      [of "useSlider_mount False 16 None" "Mouse 130" on_key 1 wide_track]
    unmounted_or_out_of_range_is_silent
      [of mounted "Mouse 130" on_key 7 "wide_track\<lparr>style_transform := Some 0\<rparr>"]
  by (simp add: eval_defs)

subsection \<open>C9: the previous offset after an overscrolled release\<close>

text \<open>
  Claim C9 as stated: for every gesture that ends while overscrolled (offset above 0 or
  below \<open>maxTranslate\<close>), \<open>handleMouseUpTouchEnd\<close> sets \<open>prevTranslate\<close> to the unclamped
  offset at release time while \<open>currentTranslate\<close> is clamped to the bound, so after
  settling the two stored offsets differ and \<open>prevTranslate\<close> may lie outside
  \<open>[maxTranslate, 0]\<close>.

  It fails when the track is no longer mounted at the release: the handler returns at
  \<open>if (!trackRef.current) return\<close>, before the clamp and before \<open>setPrevTranslate\<close>. The
  pointer, pressed at 100, is dragged to 130 (offset 9, above 0), the track is unmounted,
  and the release leaves \<open>prevTranslate\<close> at 0 and \<open>currentTranslate\<close> at 9.
\<close>

theorem unmounted_release_sets_nothing:
  "trackRef dragged_then_unmounted = None
   \<and> currentTranslate dragged_then_unmounted = 9
   \<and> currentTranslate dragged_then_unmounted > 0
   \<and> prevTranslate (handleMouseUpTouchEnd dragged_then_unmounted on_key) = 0
   \<and> prevTranslate (handleMouseUpTouchEnd dragged_then_unmounted on_key)
       \<noteq> currentTranslate dragged_then_unmounted
   \<and> currentTranslate (handleMouseUpTouchEnd dragged_then_unmounted on_key) = 9
   \<and> currentTranslate (handleMouseUpTouchEnd dragged_then_unmounted on_key) \<noteq> 0"
  by (simp add: eval_defs dragged_then_unmounted_def)

text \<open>
  Claim C9, amended: for every gesture that ends while overscrolled (offset above 0 or
  below \<open>maxTranslate\<close>) on a mounted track, \<open>handleMouseUpTouchEnd\<close> sets \<open>prevTranslate\<close>
  to the unclamped offset at release time while \<open>currentTranslate\<close> is clamped to the
  bound, so after settling the two stored offsets differ and \<open>prevTranslate\<close> lies
  outside \<open>[maxTranslate, 0]\<close>.
\<close>

theorem release_keeps_unclamped_prev:
  assumes "trackRef s \<noteq> None"
    and "currentTranslate s > 0 \<or> currentTranslate s < maxTranslate s"
  shows "prevTranslate (handleMouseUpTouchEnd s tg) = currentTranslate s
     \<and> currentTranslate (handleMouseUpTouchEnd s tg)
         = (if currentTranslate s > 0 then 0 else maxTranslate s)
     \<and> prevTranslate (handleMouseUpTouchEnd s tg) \<noteq> currentTranslate (handleMouseUpTouchEnd s tg)
     \<and> \<not> (maxTranslate (handleMouseUpTouchEnd s tg) \<le> prevTranslate (handleMouseUpTouchEnd s tg)
           \<and> prevTranslate (handleMouseUpTouchEnd s tg) \<le> 0)"
proof -
  from assms(1) obtain t where "trackRef s = Some t"
    by auto
  with assms(2) show ?thesis
    by (auto simp: handleMouseUpTouchEnd_def Let_def)
qed

theorem release_keeps_unclamped_prev_witness:
  "trackRef dragged_right \<noteq> None
   \<and> currentTranslate dragged_right = 9
   \<and> prevTranslate (handleMouseUpTouchEnd dragged_right on_key) = 9
   \<and> currentTranslate (handleMouseUpTouchEnd dragged_right on_key) = 0
   \<and> maxTranslate (handleMouseUpTouchEnd dragged_right on_key) = - 332"
  using release_keeps_unclamped_prev [of dragged_right on_key]
  by (simp add: eval_defs)

subsection \<open>C10: the frame of pointer-down\<close>

text \<open>
  Claim C10: for every pointer-down event, \<open>handleMouseDownTouchStart\<close> modifies only the
  pointer-down flag and the recorded starting X coordinate; \<open>currentTranslate\<close>,
  \<open>prevTranslate\<close>, \<open>maxTranslate\<close>, the dragging flag and the input-click flag are all
  unchanged. This holds of the handler and of the handler followed by its render.
\<close>

theorem pointer_down_frame:
  "handleMouseDownTouchStart s e = s\<lparr>isMouseDownRef := True, startPosRef := clientX_of e\<rparr>
   \<and> step s (PointerDown e) = handleMouseDownTouchStart s e
   \<and> currentTranslate (handleMouseDownTouchStart s e) = currentTranslate s
   \<and> prevTranslate (handleMouseDownTouchStart s e) = prevTranslate s
   \<and> maxTranslate (handleMouseDownTouchStart s e) = maxTranslate s
   \<and> isDragging (handleMouseDownTouchStart s e) = isDragging s
   \<and> isInputClickRef (handleMouseDownTouchStart s e) = isInputClickRef s"
  by (cases e) (simp_all add: step_def commit_def)

theorem pointer_down_frame_witness:
  "handleMouseDownTouchStart dragged_left (Touch 40 [70])
     = dragged_left\<lparr>isMouseDownRef := True, startPosRef := 40\<rparr>
   \<and> currentTranslate (handleMouseDownTouchStart dragged_left (Touch 40 [70])) = - 10
   \<and> isDragging (handleMouseDownTouchStart dragged_left (Touch 40 [70]))"
  using pointer_down_frame [of dragged_left "Touch 40 [70]"]
  by (simp add: eval_defs)

end
